theory Spec2Isabelle
  imports Main "HOL-Library.Option_ord"
begin

section \<open>Thrown values\<close>

text \<open>
  A JavaScript \<^verbatim>\<open>throw\<close> may carry any value. The two handlers of the repository look
  at a thrown value in two ways: \<^verbatim>\<open>error instanceof Error ? error.message : 'Unknown error'\<close>
  (the delivery service) and \<^verbatim>\<open>err?.message ?? "Unknown error"\<close> (the health check).
  A thrown value is therefore either an instance of \<^verbatim>\<open>Error\<close> with its message, or some
  other value, which may or may not carry a \<^verbatim>\<open>message\<close> property.
\<close>

datatype thrown =
    ErrorInstance string
  | NonError "string option"

text \<open>\<^verbatim>\<open>error instanceof Error ? error.message : 'Unknown error'\<close>\<close>

fun error_message :: "thrown \<Rightarrow> string" where
  "error_message (ErrorInstance m) = m"
| "error_message (NonError p) = ''Unknown error''"

text \<open>\<^verbatim>\<open>err?.message ?? "Unknown error"\<close>\<close>

fun message_or_unknown :: "thrown \<Rightarrow> string" where
  "message_or_unknown (ErrorInstance m) = m"
| "message_or_unknown (NonError (Some m)) = m"
| "message_or_unknown (NonError None) = ''Unknown error''"

section \<open>Data model\<close>

text \<open>
  Timestamps are whole seconds on the data store's clock. The \<^verbatim>\<open>status\<close> column is an
  enumeration; the service only ever compares it with \<^verbatim>\<open>'shipped'\<close> and \<^verbatim>\<open>'delivered'\<close>.
\<close>

type_synonym timestamp = int

datatype order_status = Pending | Shipped | Delivered | OtherStatus string

text \<open>
  The columns the selection query projects (\<^verbatim>\<open>id, order_number, shipped_at, status,
  customer_email\<close>), and a row of the \<^verbatim>\<open>orders\<close> table, which has them and the columns
  the update writes.
\<close>

record selected_order =
  order_id :: nat
  order_number :: string
  shipped_at :: "timestamp option"
  status :: order_status
  customer_email :: "string option"

record order_record = selected_order +
  delivered_at :: "timestamp option"
  updated_at :: timestamp

text \<open>A row of \<^verbatim>\<open>auto_delivery_logs\<close>, as \<^verbatim>\<open>setupAutoDeliveryLogsTable\<close> creates the table.\<close>

record log_entry =
  log_order_id :: nat
  log_order_number :: string
  log_customer_email :: "string option"
  processed_at :: timestamp

text \<open>The rows the two statistics queries return.\<close>

record count_row =
  cnt :: nat

record stats_row =
  total_processed :: nat
  last_processed :: "timestamp option"

section \<open>The query collaborator\<close>

text \<open>
  Modelled from the spec: \<^verbatim>\<open>executeQuery\<close> of \<^verbatim>\<open>@/lib/database/mysql\<close> is imported by the
  service and is not part of the sources at hand. The spec describes it as a collaborator
  that ``accepts a parameterized query string and bound parameters, returns rows (for
  selects) or an affected-row count (for writes); failures surface as thrown errors caught
  by the caller''. It is taken as a parameter: one operation for each of the five SQL
  statements the service sends, over a state \<open>'w\<close> of the outside world that every call
  may change in any way. Each operation either throws (\<open>Inl\<close>) or returns (\<open>Inr\<close>).
  The selection may return no result set at all (\<open>None\<close>), which the service tests for
  with \<^verbatim>\<open>!orders\<close>; an update returns its \<^verbatim>\<open>affectedRows\<close>.
\<close>

record 'w collaborator =
  selectOrders :: "'w \<Rightarrow> (thrown + selected_order list option) \<times> 'w"
  updateOrder :: "nat \<Rightarrow> 'w \<Rightarrow> (thrown + nat) \<times> 'w"
  insertLog :: "nat \<Rightarrow> string \<Rightarrow> string option \<Rightarrow> 'w \<Rightarrow> (thrown + unit) \<times> 'w"
  tableCheck :: "'w \<Rightarrow> (thrown + count_row list) \<times> 'w"
  statsQuery :: "'w \<Rightarrow> (thrown + stats_row list) \<times> 'w"

section \<open>AutoDeliveryService\<close>

record sweep_result =
  processedCount :: nat
  processedOrders :: "string list"
  errors :: "string list"

text \<open>
  \<^verbatim>\<open>logAutoDelivery\<close>: the insertion runs inside a \<^verbatim>\<open>try\<close> whose \<^verbatim>\<open>catch\<close> only
  writes to the console, so both outcomes leave the method normally, in the world the
  insertion left.
\<close>

definition logAutoDelivery ::
  "'w collaborator \<Rightarrow> nat \<Rightarrow> string \<Rightarrow> string option \<Rightarrow> 'w \<Rightarrow> 'w" where
  "logAutoDelivery c orderId orderNumber customerEmail w =
     (case insertLog c orderId orderNumber customerEmail w of
        (Inl error, w') \<Rightarrow> w'
      | (Inr done, w') \<Rightarrow> w')"

text \<open>
  The \<^verbatim>\<open>try\<close> block of the loop body. It returns the value it throws, if any, together
  with the world and the \<^verbatim>\<open>processedOrders\<close> array as it leaves them: a \<^verbatim>\<open>push\<close> made
  before a throw would stay.
\<close>

definition try_order ::
  "'w collaborator \<Rightarrow> selected_order \<Rightarrow> 'w \<times> string list \<Rightarrow> thrown option \<times> 'w \<times> string list" where
  "try_order c ord = (\<lambda>(w, processed).
     (case updateOrder c (order_id ord) w of
        (Inl error, w') \<Rightarrow> (Some error, w', processed)
      | (Inr affectedRows, w') \<Rightarrow>
          if affectedRows = 1
          then (None,
                logAutoDelivery c (order_id ord) (order_number ord) (customer_email ord) w',
                processed @ [order_number ord])
          else (None, w', processed)))"

text \<open>
  The message the \<^verbatim>\<open>catch\<close> of the loop body builds:
  \<^verbatim>\<open>`Failed to process order ${order.order_number}: ${error instanceof Error ? error.message : 'Unknown error'}`\<close>.
\<close>

definition errorMsg :: "'a selected_order_scheme \<Rightarrow> thrown \<Rightarrow> string" where
  "errorMsg ord error =
     ''Failed to process order '' @ order_number ord @ '': '' @ error_message error"

text \<open>The loop body with its \<^verbatim>\<open>catch\<close>: a thrown value becomes one entry of \<^verbatim>\<open>errors\<close>.\<close>

definition process_order ::
  "'w collaborator \<Rightarrow> selected_order \<Rightarrow> 'w \<times> string list \<times> string list
     \<Rightarrow> 'w \<times> string list \<times> string list" where
  "process_order c ord = (\<lambda>(w, processed, errs).
     (case try_order c ord (w, processed) of
        (Some error, w', processed') \<Rightarrow>
          (w', processed', errs @ [errorMsg ord error])
      | (None, w', processed') \<Rightarrow> (w', processed', errs)))"

text \<open>\<^verbatim>\<open>for (const order of orders)\<close>: one order after the other, each from the state
  the previous one left.\<close>

fun process_orders ::
  "'w collaborator \<Rightarrow> selected_order list \<Rightarrow> 'w \<times> string list \<times> string list
     \<Rightarrow> 'w \<times> string list \<times> string list" where
  "process_orders c [] s = s"
| "process_orders c (ord # rest) s = process_orders c rest (process_order c ord s)"

text \<open>The outer \<^verbatim>\<open>try\<close> block of \<^verbatim>\<open>checkAndMarkDeliveredOrders\<close>: it throws what the
  selection throws.\<close>

definition sweep_try :: "'w collaborator \<Rightarrow> 'w \<Rightarrow> (thrown + sweep_result) \<times> 'w" where
  "sweep_try c w =
     (case selectOrders c w of
        (Inl error, w') \<Rightarrow> (Inl error, w')
      | (Inr None, w') \<Rightarrow>
          (Inr \<lparr>processedCount = 0, processedOrders = [], errors = []\<rparr>, w')
      | (Inr (Some []), w') \<Rightarrow>
          (Inr \<lparr>processedCount = 0, processedOrders = [], errors = []\<rparr>, w')
      | (Inr (Some (ord # rest)), w') \<Rightarrow>
          (case process_orders c (ord # rest) (w', [], []) of
             (w'', processed, errs) \<Rightarrow>
               (Inr \<lparr>processedCount = length processed, processedOrders = processed,
                      errors = errs\<rparr>, w'')))"

text \<open>
  \<^verbatim>\<open>checkAndMarkDeliveredOrders\<close> with its outer \<^verbatim>\<open>catch\<close>. The result is a sum so that
  a rejected promise would be a value (\<open>Inl\<close>) of the model.
\<close>

definition checkAndMarkDeliveredOrders ::
  "'w collaborator \<Rightarrow> 'w \<Rightarrow> (thrown + sweep_result) \<times> 'w" where
  "checkAndMarkDeliveredOrders c w =
     (case sweep_try c w of
        (Inl error, w') \<Rightarrow>
          (Inr \<lparr>processedCount = 0, processedOrders = [], errors = [error_message error]\<rparr>, w')
      | (Inr result, w') \<Rightarrow> (Inr result, w'))"

record stats_result =
  totalProcessed :: nat
  lastProcessed :: "timestamp option"
  errorCount :: nat

text \<open>
  The \<^verbatim>\<open>try\<close> block of \<^verbatim>\<open>getStats\<close>. \<^verbatim>\<open>tableCheck[0]?.cnt || 0\<close> is 0 when there is
  no first row; \<^verbatim>\<open>stats[0]?.total_processed || 0\<close> and \<^verbatim>\<open>stats[0]?.last_processed || null\<close>
  likewise fall back when there is none.
\<close>

definition stats_try :: "'w collaborator \<Rightarrow> 'w \<Rightarrow> (thrown + stats_result) \<times> 'w" where
  "stats_try c w =
     (case tableCheck c w of
        (Inl error, w') \<Rightarrow> (Inl error, w')
      | (Inr tc, w') \<Rightarrow>
          if (case tc of [] \<Rightarrow> 0 | r # _ \<Rightarrow> cnt r) = 0
          then (Inr \<lparr>totalProcessed = 0, lastProcessed = None, errorCount = 0\<rparr>, w')
          else (case statsQuery c w' of
                  (Inl error, w'') \<Rightarrow> (Inl error, w'')
                | (Inr stats, w'') \<Rightarrow>
                    (Inr \<lparr>totalProcessed = (case stats of [] \<Rightarrow> 0 | r # _ \<Rightarrow> total_processed r),
                           lastProcessed = (case stats of [] \<Rightarrow> None | r # _ \<Rightarrow> last_processed r),
                           errorCount = 0\<rparr>, w'')))"

definition getStats :: "'w collaborator \<Rightarrow> 'w \<Rightarrow> (thrown + stats_result) \<times> 'w" where
  "getStats c w =
     (case stats_try c w of
        (Inl error, w') \<Rightarrow>
          (Inr \<lparr>totalProcessed = 0, lastProcessed = None, errorCount = 0\<rparr>, w')
      | (Inr result, w') \<Rightarrow> (Inr result, w'))"

section \<open>The statements of the service, on a data store\<close>

text \<open>
  What the SQL statements the service sends do on a store that holds the two tables and
  a clock (\<^verbatim>\<open>NOW()\<close>). \<open>None\<close> for \<^verbatim>\<open>auto_delivery_logs\<close> is a store where
  \<^verbatim>\<open>setupAutoDeliveryLogsTable\<close> has not created the table.
\<close>

record db =
  orders :: "order_record list"
  auto_delivery_logs :: "log_entry list option"
  now :: timestamp

text \<open>\<^verbatim>\<open>INTERVAL 7 DAY\<close>, in seconds.\<close>

definition seven_days :: int where
  "seven_days = 7 * 24 * 60 * 60"

text \<open>
  The \<^verbatim>\<open>WHERE\<close> clause of the selection:
  \<^verbatim>\<open>status = 'shipped' AND shipped_at IS NOT NULL
  AND shipped_at <= DATE_SUB(NOW(), INTERVAL 7 DAY)
  AND (delivered_at IS NULL OR status != 'delivered')\<close>.
  A comparison with \<^verbatim>\<open>NULL\<close> is not true in SQL.
\<close>

definition eligible :: "timestamp \<Rightarrow> order_record \<Rightarrow> bool" where
  "eligible n ord \<longleftrightarrow>
     status ord = Shipped
     \<and> shipped_at ord \<noteq> None
     \<and> (case shipped_at ord of None \<Rightarrow> False | Some t \<Rightarrow> t \<le> n - seven_days)
     \<and> (delivered_at ord = None \<or> status ord \<noteq> Delivered)"

text \<open>The \<^verbatim>\<open>SELECT\<close> list.\<close>

definition project :: "order_record \<Rightarrow> selected_order" where
  "project ord =
     \<lparr>order_id = order_id ord, order_number = order_number ord,
      shipped_at = shipped_at ord, status = status ord,
      customer_email = customer_email ord\<rparr>"

text \<open>
  The selection with its \<^verbatim>\<open>ORDER BY shipped_at ASC\<close>. MySQL leaves the order of rows
  with equal keys open; the model keeps them in table order.
\<close>

definition select_eligible :: "db \<Rightarrow> selected_order list" where
  "select_eligible d =
     map project (sort_key shipped_at (filter (eligible (now d)) (orders d)))"

text \<open>
  \<^verbatim>\<open>UPDATE orders SET status = 'delivered', delivered_at = NOW(), updated_at = NOW()
  WHERE id = ? AND status = 'shipped'\<close>: the rows the \<^verbatim>\<open>WHERE\<close> clause matches, the
  row written, and the statement, which reports how many rows it matched.
\<close>

definition update_matches :: "nat \<Rightarrow> order_record \<Rightarrow> bool" where
  "update_matches i ord \<longleftrightarrow> order_id ord = i \<and> status ord = Shipped"

definition mark_delivered :: "timestamp \<Rightarrow> order_record \<Rightarrow> order_record" where
  "mark_delivered n ord = ord\<lparr>status := Delivered, delivered_at := Some n, updated_at := n\<rparr>"

definition update_delivered :: "nat \<Rightarrow> db \<Rightarrow> nat \<times> db" where
  "update_delivered i d =
     (length (filter (update_matches i) (orders d)),
      d\<lparr>orders := map (\<lambda>ord. if update_matches i ord then mark_delivered (now d) ord else ord)
                      (orders d)\<rparr>)"

text \<open>
  \<^verbatim>\<open>INSERT INTO auto_delivery_logs (order_id, order_number, customer_email, processed_at)
  VALUES (?, ?, ?, NOW())\<close>; it fails when the table does not exist.
\<close>

definition insert_log :: "nat \<Rightarrow> string \<Rightarrow> string option \<Rightarrow> db \<Rightarrow> (thrown + unit) \<times> db" where
  "insert_log i num email d =
     (case auto_delivery_logs d of
        None \<Rightarrow> (Inl (ErrorInstance ''ER_NO_SUCH_TABLE''), d)
      | Some entries \<Rightarrow>
          (Inr (),
           d\<lparr>auto_delivery_logs :=
               Some (entries @ [\<lparr>log_order_id = i, log_order_number = num,
                                  log_customer_email = email, processed_at = now d\<rparr>])\<rparr>))"

text \<open>
  \<^verbatim>\<open>SELECT COUNT(*) as cnt FROM INFORMATION_SCHEMA.TABLES WHERE ... TABLE_NAME='auto_delivery_logs'\<close>
  and \<^verbatim>\<open>SELECT COUNT(*) as total_processed, MAX(processed_at) as last_processed
  FROM auto_delivery_logs\<close>.
\<close>

definition table_check :: "db \<Rightarrow> count_row list" where
  "table_check d = [\<lparr>cnt = (case auto_delivery_logs d of None \<Rightarrow> 0 | Some entries \<Rightarrow> 1)\<rparr>]"

definition stats_query :: "db \<Rightarrow> (thrown + stats_row list) \<times> db" where
  "stats_query d =
     (case auto_delivery_logs d of
        None \<Rightarrow> (Inl (ErrorInstance ''ER_NO_SUCH_TABLE''), d)
      | Some entries \<Rightarrow>
          (Inr [\<lparr>total_processed = length entries,
                 last_processed =
                   (case entries of
                      [] \<Rightarrow> None
                    | e # es \<Rightarrow> Some (fold max (map processed_at es) (processed_at e)))\<rparr>],
           d))"

text \<open>The collaborator that runs each statement on the store and never fails by itself.\<close>

definition mysql :: "db collaborator" where
  "mysql =
     \<lparr>selectOrders = (\<lambda>d. (Inr (Some (select_eligible d)), d)),
      updateOrder = (\<lambda>i d. case update_delivered i d of (n, d') \<Rightarrow> (Inr n, d')),
      insertLog = insert_log,
      tableCheck = (\<lambda>d. (Inr (table_check d), d)),
      statsQuery = stats_query\<rparr>"


section \<open>The calls a run makes\<close>

text \<open>
  To speak about which statements a run sends and in which order, a collaborator is
  wrapped so that the world also carries the list of calls made so far, each with what it
  answered. The wrapped collaborator answers as the one it wraps.
\<close>

datatype call =
    SelectCall "thrown + selected_order list option"
  | UpdateCall nat "thrown + nat"
  | InsertCall nat string "string option" "thrown + unit"
  | TableCheckCall "thrown + count_row list"
  | StatsCall "thrown + stats_row list"

definition traced :: "'w collaborator \<Rightarrow> ('w \<times> call list) collaborator" where
  "traced c =
     \<lparr>selectOrders = (\<lambda>(w, t). case selectOrders c w of (r, w') \<Rightarrow> (r, (w', t @ [SelectCall r]))),
      updateOrder = (\<lambda>i (w, t). case updateOrder c i w of (r, w') \<Rightarrow> (r, (w', t @ [UpdateCall i r]))),
      insertLog = (\<lambda>i num email (w, t).
         case insertLog c i num email w of (r, w') \<Rightarrow> (r, (w', t @ [InsertCall i num email r]))),
      tableCheck = (\<lambda>(w, t). case tableCheck c w of (r, w') \<Rightarrow> (r, (w', t @ [TableCheckCall r]))),
      statsQuery = (\<lambda>(w, t). case statsQuery c w of (r, w') \<Rightarrow> (r, (w', t @ [StatsCall r])))\<rparr>"

text \<open>The order ids of the update calls of a trace, and their answers, in the order made.\<close>

fun update_ids :: "call list \<Rightarrow> nat list" where
  "update_ids [] = []"
| "update_ids (UpdateCall i r # t) = i # update_ids t"
| "update_ids (x # t) = update_ids t"

fun update_replies :: "call list \<Rightarrow> (thrown + nat) list" where
  "update_replies [] = []"
| "update_replies (UpdateCall i r # t) = r # update_replies t"
| "update_replies (x # t) = update_replies t"

text \<open>
  Given the selected orders and the answers to their updates, position by position: the
  order numbers of those whose update affected exactly one row, and the messages of
  those whose update threw.
\<close>

fun reported :: "selected_order list \<Rightarrow> (thrown + nat) list \<Rightarrow> string list" where
  "reported (ord # os) (r # rs) =
     (if r = Inr 1 then order_number ord # reported os rs else reported os rs)"
| "reported os rs = []"

fun failures :: "selected_order list \<Rightarrow> (thrown + nat) list \<Rightarrow> string list" where
  "failures (ord # os) (Inl e # rs) = errorMsg ord e # failures os rs"
| "failures (ord # os) (Inr n # rs) = failures os rs"
| "failures os rs = []"

section \<open>The health check\<close>

text \<open>
  The \<^verbatim>\<open>GET\<close> handler of the health-check route. \<^verbatim>\<open>testConnection\<close> and
  \<^verbatim>\<open>getDatabaseConfig\<close> come from \<^verbatim>\<open>@/lib/database/mysql-config\<close>, which is not part of
  the sources at hand, so what the two calls do is a parameter: the probe throws or
  resolves to a boolean, and reading the configuration throws or returns it. Of the
  configuration the handler reads \<^verbatim>\<open>host\<close> and \<^verbatim>\<open>database\<close> only. A JSON body is the
  list of its members in the order written.
\<close>

record db_config =
  host :: string
  database :: string

datatype json = JBool bool | JString string

record response =
  http_status :: nat
  body :: "(string \<times> json) list"

text \<open>
  The \<^verbatim>\<open>try\<close> block: \<^verbatim>\<open>await testConnection()\<close>, then \<^verbatim>\<open>getDatabaseConfig()\<close>, then the
  test of \<^verbatim>\<open>ok\<close>. A throwing probe leaves the block before the configuration is read; a
  throwing \<^verbatim>\<open>getDatabaseConfig()\<close> leaves it whatever the probe resolved to.
\<close>

definition GET_try ::
  "thrown + bool \<Rightarrow> thrown + 'a db_config_scheme \<Rightarrow> thrown + response" where
  "GET_try probe config =
     (case probe of
        Inl err \<Rightarrow> Inl err
      | Inr ok \<Rightarrow>
          (case config of
             Inl err \<Rightarrow> Inl err
           | Inr cfg \<Rightarrow>
               if ok
               then Inr \<lparr>http_status = 200,
                         body = [(''success'', JBool True), (''mysqlConnected'', JBool True),
                                 (''host'', JString (host cfg)),
                                 (''database'', JString (database cfg))]\<rparr>
               else Inr \<lparr>http_status = 500,
                         body = [(''success'', JBool False), (''mysqlConnected'', JBool False)]\<rparr>))"

text \<open>The handler with its \<^verbatim>\<open>catch\<close>.\<close>

definition GET :: "thrown + bool \<Rightarrow> thrown + 'a db_config_scheme \<Rightarrow> response" where
  "GET probe config =
     (case GET_try probe config of
        Inr answer \<Rightarrow> answer
      | Inl err \<Rightarrow>
          \<lparr>http_status = 500,
           body = [(''success'', JBool False), (''mysqlConnected'', JBool False),
                   (''error'', JString (message_or_unknown err))]\<rparr>)"

section \<open>Describing a run by its calls\<close>

text \<open>
  The calls one pass of the loop body makes from world \<open>w\<close>: the update of the order,
  and the insertion of its log entry when the update affected exactly one row.
\<close>

definition order_calls :: "'w collaborator \<Rightarrow> selected_order \<Rightarrow> 'w \<Rightarrow> call list" where
  "order_calls c ord w =
     (case updateOrder c (order_id ord) w of
        (r, w') \<Rightarrow>
          UpdateCall (order_id ord) r #
          (if r = Inr 1
           then [InsertCall (order_id ord) (order_number ord) (customer_email ord)
                   (fst (insertLog c (order_id ord) (order_number ord) (customer_email ord) w'))]
           else []))"

fun loop_calls ::
  "'w collaborator \<Rightarrow> selected_order list \<Rightarrow> 'w \<times> string list \<times> string list \<Rightarrow> call list" where
  "loop_calls c [] s = []"
| "loop_calls c (ord # rest) s =
     order_calls c ord (fst s) @ loop_calls c rest (process_order c ord s)"

text \<open>
  A list of calls handles the orders one at a time when it is, order by order, the
  update of that order, followed by the insertion of that order's log entry exactly when
  the update answered one affected row, and nothing else. Calls for two orders never
  interleave, and no order is left out.
\<close>

fun one_at_a_time :: "selected_order list \<Rightarrow> call list \<Rightarrow> bool" where
  "one_at_a_time [] t = (t = [])"
| "one_at_a_time (ord # os) t =
     (case t of
        UpdateCall i r # t' \<Rightarrow>
          i = order_id ord \<and>
          (if r = Inr 1
           then (case t' of
                   InsertCall j num email x # t'' \<Rightarrow>
                     j = order_id ord \<and> num = order_number ord \<and> email = customer_email ord
                     \<and> one_at_a_time os t''
                 | _ \<Rightarrow> False)
           else one_at_a_time os t')
      | _ \<Rightarrow> False)"

section \<open>Example stores\<close>

text \<open>
  A store at time 604800 (seven days after time 0) with three shipped orders: one
  shipped exactly seven days ago, one a day earlier, one a second later. The log table
  has not been created.
\<close>

definition shop :: db where
  "shop =
     \<lparr>orders =
        [\<lparr>order_id = 42, order_number = ''ORD-0042'', shipped_at = Some 0, status = Shipped,
          customer_email = Some ''ana@example.com'', delivered_at = None, updated_at = 0\<rparr>,
         \<lparr>order_id = 7, order_number = ''ORD-0007'', shipped_at = Some (- 86400), status = Shipped,
          customer_email = None, delivered_at = None, updated_at = 0\<rparr>,
         \<lparr>order_id = 50, order_number = ''ORD-0050'', shipped_at = Some 1, status = Shipped,
          customer_email = None, delivered_at = None, updated_at = 1\<rparr>],
      auto_delivery_logs = None,
      now = 604800\<rparr>"

text \<open>A store with nothing to sweep: one order shipped three days ago, one not shipped.\<close>

definition quiet_shop :: db where
  "quiet_shop =
     \<lparr>orders =
        [\<lparr>order_id = 1, order_number = ''ORD-0001'', shipped_at = Some 345600, status = Shipped,
          customer_email = None, delivered_at = None, updated_at = 345600\<rparr>,
         \<lparr>order_id = 2, order_number = ''ORD-0002'', shipped_at = None, status = Pending,
          customer_email = None, delivered_at = None, updated_at = 0\<rparr>],
      auto_delivery_logs = Some [],
      now = 604800\<rparr>"

text \<open>The same store once the log table exists.\<close>

definition logged_shop :: db where
  "logged_shop = shop\<lparr>auto_delivery_logs := Some []\<rparr>"

text \<open>The two rows of \<open>shop\<close> that are at least seven days old, as the selection
  returns them.\<close>

definition row_0007 :: selected_order where
  "row_0007 = \<lparr>order_id = 7, order_number = ''ORD-0007'', shipped_at = Some (- 86400),
               status = Shipped, customer_email = None\<rparr>"

definition row_0042 :: selected_order where
  "row_0042 = \<lparr>order_id = 42, order_number = ''ORD-0042'', shipped_at = Some 0,
               status = Shipped, customer_email = Some ''ana@example.com''\<rparr>"


section \<open>The loop body and the loop\<close>

lemma process_order_throws:
  "updateOrder c (order_id ord) w = (Inl e, w') \<Longrightarrow>
   process_order c ord (w, processed, errs) =
     (w', processed, errs @ [errorMsg ord e])"
  by (simp add: process_order_def try_order_def)

lemma process_order_skips:
  "updateOrder c (order_id ord) w = (Inr n, w') \<Longrightarrow> n \<noteq> 1 \<Longrightarrow>
   process_order c ord (w, processed, errs) = (w', processed, errs)"
  by (simp add: process_order_def try_order_def)

lemma process_order_delivers:
  "updateOrder c (order_id ord) w = (Inr 1, w') \<Longrightarrow>
   process_order c ord (w, processed, errs) =
     (snd (insertLog c (order_id ord) (order_number ord) (customer_email ord) w'),
      processed @ [order_number ord], errs)"
  by (simp add: process_order_def try_order_def logAutoDelivery_def split: prod.splits sum.splits)

lemma process_orders_append:
  "process_orders c (xs @ ys) s = process_orders c ys (process_orders c xs s)"
  by (induction xs arbitrary: s) simp_all

text \<open>The loop only ever appends to its two lists.\<close>

lemma process_order_extends:
  "process_order c ord (w, processed, errs) = (w', processed', errs') \<Longrightarrow>
   \<exists>ps es. processed' = processed @ ps \<and> errs' = errs @ es"
  by (auto simp: process_order_def try_order_def split: prod.splits sum.splits if_splits option.splits)

lemma process_orders_extends:
  "process_orders c os (w, processed, errs) = (w', processed', errs') \<Longrightarrow>
   \<exists>ps es. processed' = processed @ ps \<and> errs' = errs @ es"
proof (induction os arbitrary: w processed errs)
  case Nil
  then show ?case by simp
next
  case (Cons ord os)
  obtain w1 p1 e1 where step: "process_order c ord (w, processed, errs) = (w1, p1, e1)"
    by (cases "process_order c ord (w, processed, errs)") auto
  from process_order_extends [OF step] obtain ps es
    where a: "p1 = processed @ ps" "e1 = errs @ es" by blast
  from Cons.prems step have "process_orders c os (w1, p1, e1) = (w', processed', errs')" by simp
  from Cons.IH [OF this] obtain ps' es'
    where b: "processed' = p1 @ ps'" "errs' = e1 @ es'" by blast
  from a b show ?case by simp
qed

lemma sweep_try_select_throws:
  "selectOrders c w = (Inl e, w') \<Longrightarrow> sweep_try c w = (Inl e, w')"
  by (simp add: sweep_try_def)

section \<open>Traced runs\<close>

lemma update_ids_append: "update_ids (s @ t) = update_ids s @ update_ids t"
  by (induction s rule: update_ids.induct) simp_all

lemma update_replies_append: "update_replies (s @ t) = update_replies s @ update_replies t"
  by (induction s rule: update_replies.induct) simp_all

lemma traced_update:
  "updateOrder (traced c) i (w, t) =
     (fst (updateOrder c i w), (snd (updateOrder c i w), t @ [UpdateCall i (fst (updateOrder c i w))]))"
  by (simp add: traced_def split: prod.splits)

lemma traced_insert:
  "insertLog (traced c) i num email (w, t) =
     (fst (insertLog c i num email w),
      (snd (insertLog c i num email w), t @ [InsertCall i num email (fst (insertLog c i num email w))]))"
  by (simp add: traced_def split: prod.splits)

lemma traced_select:
  "selectOrders (traced c) (w, t) =
     (fst (selectOrders c w), (snd (selectOrders c w), t @ [SelectCall (fst (selectOrders c w))]))"
  by (simp add: traced_def split: prod.splits)

text \<open>Tracing changes nothing but the trace: the traced loop body and loop do what the
  plain ones do, and add the calls described above.\<close>

lemma traced_process_order:
  "process_order (traced c) ord ((w, t), processed, errs) =
     (case process_order c ord (w, processed, errs) of
        (w', processed', errs') \<Rightarrow> ((w', t @ order_calls c ord w), processed', errs'))"
  by (auto simp: process_order_def try_order_def logAutoDelivery_def traced_update traced_insert
        order_calls_def split: prod.splits sum.splits)

lemma traced_process_orders:
  "process_orders (traced c) os ((w, t), processed, errs) =
     (case process_orders c os (w, processed, errs) of
        (w', processed', errs') \<Rightarrow>
          ((w', t @ loop_calls c os (w, processed, errs)), processed', errs'))"
proof (induction os arbitrary: w t processed errs)
  case Nil
  then show ?case by simp
next
  case (Cons ord os)
  obtain w1 p1 e1 where step: "process_order c ord (w, processed, errs) = (w1, p1, e1)"
    by (cases "process_order c ord (w, processed, errs)") auto
  show ?case
    by (simp add: traced_process_order step Cons.IH split: prod.splits)
qed

lemma update_ids_order_calls: "update_ids (order_calls c ord w) = [order_id ord]"
  by (simp add: order_calls_def split: prod.splits)

lemma update_replies_order_calls:
  "update_replies (order_calls c ord w) = [fst (updateOrder c (order_id ord) w)]"
  by (simp add: order_calls_def split: prod.splits)

lemma update_ids_loop_calls: "update_ids (loop_calls c os s) = map order_id os"
  by (induction os arbitrary: s) (simp_all add: update_ids_append update_ids_order_calls)


lemma one_at_a_time_loop_calls: "one_at_a_time os (loop_calls c os s)"
  by (induction os arbitrary: s) (auto simp: order_calls_def split: prod.splits)

text \<open>What the loop adds to its two lists is decided, order by order, by the answer to
  that order's update alone.\<close>

lemma process_order_by_reply:
  "process_order c ord (w, processed, errs) = (w', processed', errs') \<Longrightarrow>
   processed' = processed @ reported [ord] [fst (updateOrder c (order_id ord) w)] \<and>
   errs' = errs @ failures [ord] [fst (updateOrder c (order_id ord) w)]"
  by (auto simp: process_order_def try_order_def split: prod.splits sum.splits if_splits)

lemma process_orders_by_replies:
  "process_orders c os (w, processed, errs) = (w', processed', errs') \<Longrightarrow>
   processed' = processed @ reported os (update_replies (loop_calls c os (w, processed, errs))) \<and>
   errs' = errs @ failures os (update_replies (loop_calls c os (w, processed, errs)))"
proof (induction os arbitrary: w processed errs)
  case Nil
  then show ?case by simp
next
  case (Cons ord os)
  obtain w1 p1 e1 where step: "process_order c ord (w, processed, errs) = (w1, p1, e1)"
    by (cases "process_order c ord (w, processed, errs)") auto
  note one = process_order_by_reply [OF step]
  from Cons.prems step have "process_orders c os (w1, p1, e1) = (w', processed', errs')" by simp
  note rest = Cons.IH [OF this]
  show ?case
  proof (cases "fst (updateOrder c (order_id ord) w)")
    case (Inl e)
    with one rest step show ?thesis
      by (simp add: update_replies_append update_replies_order_calls)
  next
    case (Inr n)
    with one rest step show ?thesis
      by (simp add: update_replies_append update_replies_order_calls)
  qed
qed

lemma sweep_selected:
  "selectOrders c w = (Inr (Some os), w0) \<Longrightarrow>
   checkAndMarkDeliveredOrders c w =
     (case process_orders c os (w0, [], []) of
        (w', processed, errs) \<Rightarrow>
          (Inr \<lparr>processedCount = length processed, processedOrders = processed, errors = errs\<rparr>,
           w'))"
  by (cases os) (simp_all add: checkAndMarkDeliveredOrders_def sweep_try_def split: prod.splits)

lemma traced_sweep_selected:
  assumes "selectOrders c w = (Inr (Some os), w0)"
  shows "checkAndMarkDeliveredOrders (traced c) (w, t) =
     (case process_orders c os (w0, [], []) of
        (w', processed, errs) \<Rightarrow>
          (Inr \<lparr>processedCount = length processed, processedOrders = processed, errors = errs\<rparr>,
           (w', t @ SelectCall (Inr (Some os)) # loop_calls c os (w0, [], []))))"
proof -
  from assms have "selectOrders (traced c) (w, t) =
      (Inr (Some os), (w0, t @ [SelectCall (Inr (Some os))]))"
    by (simp add: traced_select)
  from sweep_selected [OF this] show ?thesis
    by (simp add: traced_process_orders split: prod.splits)
qed

text \<open>The wrapped collaborator gives the run the same result and the same world.\<close>

lemma traced_sweep_same:
  "fst (checkAndMarkDeliveredOrders (traced c) (w, t)) = fst (checkAndMarkDeliveredOrders c w) \<and>
   fst (snd (checkAndMarkDeliveredOrders (traced c) (w, t))) = snd (checkAndMarkDeliveredOrders c w)"
proof (cases "selectOrders c w")
  case (Pair reply w0)
  show ?thesis
  proof (cases reply)
    case (Inl e)
    with Pair show ?thesis
      by (simp add: checkAndMarkDeliveredOrders_def sweep_try_def traced_select)
  next
    case (Inr sel)
    show ?thesis
    proof (cases sel)
      case None
      with Inr Pair show ?thesis
        by (simp add: checkAndMarkDeliveredOrders_def sweep_try_def traced_select)
    next
      case (Some os)
      with Inr Pair have "selectOrders c w = (Inr (Some os), w0)" by simp
      from sweep_selected [OF this] traced_sweep_selected [OF this, of t]
      show ?thesis by (simp split: prod.splits)
    qed
  qed
qed



lemma reported_source:
  "num \<in> set (reported os rs) \<Longrightarrow>
   \<exists>k. k < length os \<and> k < length rs \<and> order_number (os ! k) = num \<and> rs ! k = Inr 1"
proof (induction os rs rule: reported.induct)
  case (1 ord os r rs)
  show ?case
  proof (cases "r = Inr 1 \<and> num = order_number ord")
    case True
    then have "0 < length (ord # os) \<and> 0 < length (r # rs) \<and>
        order_number ((ord # os) ! 0) = num \<and> (r # rs) ! 0 = Inr 1" by simp
    then show ?thesis by blast
  next
    case False
    with 1 have "num \<in> set (reported os rs)" by (auto split: if_splits)
    with 1 obtain k where "k < length os" "k < length rs" "order_number (os ! k) = num"
        "rs ! k = Inr 1" by (auto split: if_splits)
    then have "Suc k < length (ord # os) \<and> Suc k < length (r # rs) \<and>
        order_number ((ord # os) ! Suc k) = num \<and> (r # rs) ! Suc k = Inr 1" by simp
    then show ?thesis by blast
  qed
qed simp_all

section \<open>The statements on the store\<close>

lemma update_matches_mark_delivered: "\<not> update_matches i (mark_delivered n ord)"
  by (simp add: update_matches_def mark_delivered_def)

lemma update_delivered_orders:
  "orders (snd (update_delivered i d)) =
     map (\<lambda>ord. if update_matches i ord then mark_delivered (now d) ord else ord) (orders d)"
  by (simp add: update_delivered_def)

lemma update_delivered_unmatched:
  "filter (update_matches i) (orders d) = [] \<Longrightarrow> update_delivered i d = (0, d)"
proof -
  assume none: "filter (update_matches i) (orders d) = []"
  then have "\<forall>ord \<in> set (orders d). \<not> update_matches i ord"
    by (simp add: filter_empty_conv)
  then have "map (\<lambda>ord. if update_matches i ord then mark_delivered (now d) ord else ord) (orders d)
      = orders d"
    by (simp add: map_idI)
  with none show ?thesis by (simp add: update_delivered_def)
qed

lemma update_delivered_again:
  "update_delivered i (snd (update_delivered i d)) = (0, snd (update_delivered i d))"
proof (rule update_delivered_unmatched)
  show "filter (update_matches i) (orders (snd (update_delivered i d))) = []"
    by (auto simp: update_delivered_orders filter_empty_conv update_matches_mark_delivered)
qed

lemma mysql_update: "updateOrder mysql i d = (Inr (fst (update_delivered i d)), snd (update_delivered i d))"
  by (simp add: mysql_def split: prod.splits)

lemma shipped_at_project: "shipped_at (project ord) = shipped_at ord"
  by (simp add: project_def)

lemma sorted_select_eligible: "sorted (map shipped_at (select_eligible d))"
proof -
  have "map shipped_at (select_eligible d) =
      map shipped_at (sort_key shipped_at (filter (eligible (now d)) (orders d)))"
    by (simp add: select_eligible_def shipped_at_project)
  then show ?thesis by simp
qed

text \<open>
  What the selection returns, as a set: the projections of the rows that are shipped and
  whose \<^verbatim>\<open>shipped_at\<close> is at least seven days before the store's clock. The last
  conjunct of the \<^verbatim>\<open>WHERE\<close> clause adds nothing once the status is \<^verbatim>\<open>'shipped'\<close>.
\<close>

lemma select_eligible_iff:
  "row \<in> set (select_eligible d) \<longleftrightarrow>
     (\<exists>ord \<in> set (orders d). row = project ord \<and> status ord = Shipped \<and>
        (\<exists>at. shipped_at ord = Some at \<and> at + seven_days \<le> now d))"
  by (auto simp: select_eligible_def eligible_def split: option.splits)

section \<open>Properties of the sweep\<close>

text \<open>
  C1, as amended. Whatever the collaborator does, \<^verbatim>\<open>checkAndMarkDeliveredOrders\<close> does
  not throw: it returns a result record. When the selection query throws, the result has
  \<^verbatim>\<open>processedCount\<close> 0, no processed orders, and exactly one error entry: the message of
  the thrown value when that is an instance of \<^verbatim>\<open>Error\<close>, and the fixed text
  \<^verbatim>\<open>'Unknown error'\<close> when it is any other value, with or without a message of its own.
  The world is the one the failed selection left: no other statement has been sent.
\<close>

theorem sweep_never_throws:
  "(\<exists>r. fst (checkAndMarkDeliveredOrders c w) = Inr r) \<and>
   (\<forall>m w'. selectOrders c w = (Inl (ErrorInstance m), w') \<longrightarrow>
      checkAndMarkDeliveredOrders c w =
        (Inr \<lparr>processedCount = 0, processedOrders = [], errors = [m]\<rparr>, w')) \<and>
   (\<forall>p w'. selectOrders c w = (Inl (NonError p), w') \<longrightarrow>
      checkAndMarkDeliveredOrders c w =
        (Inr \<lparr>processedCount = 0, processedOrders = [], errors = [''Unknown error'']\<rparr>, w'))"
proof (intro conjI)
  show "\<exists>r. fst (checkAndMarkDeliveredOrders c w) = Inr r"
    by (simp add: checkAndMarkDeliveredOrders_def split: prod.splits sum.splits)
next
  show "\<forall>m w'. selectOrders c w = (Inl (ErrorInstance m), w') \<longrightarrow>
      checkAndMarkDeliveredOrders c w =
        (Inr \<lparr>processedCount = 0, processedOrders = [], errors = [m]\<rparr>, w')"
    by (simp add: checkAndMarkDeliveredOrders_def sweep_try_select_throws)
next
  show "\<forall>p w'. selectOrders c w = (Inl (NonError p), w') \<longrightarrow>
      checkAndMarkDeliveredOrders c w =
        (Inr \<lparr>processedCount = 0, processedOrders = [], errors = [''Unknown error'']\<rparr>, w')"
    by (simp add: checkAndMarkDeliveredOrders_def sweep_try_select_throws)
qed

theorem sweep_never_throws_witness:
  "selectOrders (mysql\<lparr>selectOrders := \<lambda>d. (Inl (ErrorInstance ''connect ETIMEDOUT''), d)\<rparr>) shop
     = (Inl (ErrorInstance ''connect ETIMEDOUT''), shop) \<and>
   checkAndMarkDeliveredOrders
       (mysql\<lparr>selectOrders := \<lambda>d. (Inl (ErrorInstance ''connect ETIMEDOUT''), d)\<rparr>) shop
     = (Inr \<lparr>processedCount = 0, processedOrders = [], errors = [''connect ETIMEDOUT'']\<rparr>, shop)"
  using sweep_never_throws
    [of "mysql\<lparr>selectOrders := \<lambda>d. (Inl (ErrorInstance ''connect ETIMEDOUT''), d)\<rparr>" shop]
  by simp

text \<open>
  C1 as stated asks, for every behaviour of the collaborator, that the single entry be
  the thrown error's message. A selection that throws a value which is not an
  \<^verbatim>\<open>Error\<close> instance but carries the message \<^verbatim>\<open>connect ETIMEDOUT\<close> is reported as
  \<^verbatim>\<open>'Unknown error'\<close>, not as that message.
\<close>

theorem thrown_non_error_reported_as_unknown:
  "checkAndMarkDeliveredOrders
       (mysql\<lparr>selectOrders := \<lambda>d. (Inl (NonError (Some ''connect ETIMEDOUT'')), d)\<rparr>) shop
     = (Inr \<lparr>processedCount = 0, processedOrders = [], errors = [''Unknown error'']\<rparr>, shop) \<and>
   [''Unknown error''] \<noteq> [''connect ETIMEDOUT'']"
  by (simp add: checkAndMarkDeliveredOrders_def sweep_try_def)

text \<open>
  C2. The claim is that an order is selected if and only if it is shipped, its
  \<^verbatim>\<open>shipped_at\<close> is more than seven days in the past and it is not yet delivered, so that
  an order shipped exactly seven days ago is not selected; the comments of the service
  say the same (``shipped more than 7 days ago''). The query compares with \<^verbatim>\<open><=\<close>: in
  \<open>shop\<close>, order ORD-0042, shipped exactly seven days before the clock, is selected
  (and ORD-0050, shipped one second later, is not).
\<close>

theorem shipped_exactly_seven_days_ago_is_selected:
  "map (\<lambda>ord. (order_number ord, shipped_at ord)) (select_eligible shop) =
     [(''ORD-0007'', Some (now shop - seven_days - 86400)),
      (''ORD-0042'', Some (now shop - seven_days))]"
  by code_simp

text \<open>
  C3. The update of the sweep, on the store: it affects the rows with the given id whose
  status is \<^verbatim>\<open>'shipped'\<close> when it runs and reports their number, writes
  \<^verbatim>\<open>'delivered'\<close> and the clock's time to exactly those rows and leaves every other row
  and the log table as they are; run again, it affects zero rows and changes nothing.
  For any collaborator: when the update of a selected order answers a number of affected
  rows other than one (zero in particular), the loop body adds nothing to
  \<^verbatim>\<open>processedOrders\<close>, nothing to \<^verbatim>\<open>errors\<close>, and makes no other call, so no log entry is
  written. On a store \<open>s\<close>, processing an order none of whose rows is still shipped
  (it is delivered already, say) leaves the store and both lists unchanged.
\<close>

theorem conditional_update_skip:
  "(updateOrder mysql i d = (Inr n, d') \<longrightarrow>
      n = length (filter (\<lambda>ord. order_id ord = i \<and> status ord = Shipped) (orders d)) \<and>
      length (orders d') = length (orders d) \<and>
      (\<forall>k<length (orders d).
         orders d' ! k =
           (if order_id (orders d ! k) = i \<and> status (orders d ! k) = Shipped
            then (orders d ! k)\<lparr>status := Delivered, delivered_at := Some (now d),
                                 updated_at := now d\<rparr>
            else orders d ! k)) \<and>
      auto_delivery_logs d' = auto_delivery_logs d \<and>
      updateOrder mysql i d' = (Inr 0, d')) \<and>
   (updateOrder c (order_id ord) w = (Inr m, w') \<longrightarrow> m \<noteq> 1 \<longrightarrow>
      process_order (traced c) ord ((w, t), processed, errs) =
        ((w', t @ [UpdateCall (order_id ord) (Inr m)]), processed, errs)) \<and>
   ((\<forall>row \<in> set (orders s). order_id row = order_id ord \<longrightarrow> status row \<noteq> Shipped) \<longrightarrow>
      process_order mysql ord (s, processed, errs) = (s, processed, errs))"
proof (intro conjI impI)
  assume upd: "updateOrder mysql i d = (Inr n, d')"
  then have n: "n = fst (update_delivered i d)" and d': "d' = snd (update_delivered i d)"
    by (simp_all add: mysql_update)
  show "n = length (filter (\<lambda>ord. order_id ord = i \<and> status ord = Shipped) (orders d))"
  proof -
    have "update_matches i = (\<lambda>ord. order_id ord = i \<and> status ord = Shipped)"
      by (simp add: fun_eq_iff update_matches_def)
    with n show ?thesis by (simp add: update_delivered_def)
  qed
  show "length (orders d') = length (orders d)"
    using d' by (simp add: update_delivered_orders)
  show "\<forall>k<length (orders d).
         orders d' ! k =
           (if order_id (orders d ! k) = i \<and> status (orders d ! k) = Shipped
            then (orders d ! k)\<lparr>status := Delivered, delivered_at := Some (now d),
                                 updated_at := now d\<rparr>
            else orders d ! k)"
    using d' by (simp add: update_delivered_orders update_matches_def mark_delivered_def)
  show "auto_delivery_logs d' = auto_delivery_logs d"
    using d' by (simp add: update_delivered_def)
  show "updateOrder mysql i d' = (Inr 0, d')"
    using d' by (simp add: mysql_update update_delivered_again)
next
  assume "updateOrder c (order_id ord) w = (Inr m, w')" and "m \<noteq> 1"
  then show "process_order (traced c) ord ((w, t), processed, errs) =
        ((w', t @ [UpdateCall (order_id ord) (Inr m)]), processed, errs)"
    by (simp add: traced_process_order process_order_skips order_calls_def)
next
  assume "\<forall>row \<in> set (orders s). order_id row = order_id ord \<longrightarrow> status row \<noteq> Shipped"
  then have "filter (update_matches (order_id ord)) (orders s) = []"
    by (auto simp: filter_empty_conv update_matches_def)
  then have "updateOrder mysql (order_id ord) s = (Inr 0, s)"
    by (simp add: mysql_update update_delivered_unmatched)
  then show "process_order mysql ord (s, processed, errs) = (s, processed, errs)"
    by (simp add: process_order_skips)
qed

theorem conditional_update_skip_witness:
  "updateOrder mysql 42 shop = (Inr 1, snd (update_delivered 42 shop)) \<and>
   map status (orders (snd (update_delivered 42 shop))) = [Delivered, Shipped, Shipped] \<and>
   updateOrder mysql 42 (snd (update_delivered 42 shop)) = (Inr 0, snd (update_delivered 42 shop)) \<and>
   process_order (traced mysql) row_0042 ((snd (update_delivered 42 shop), []), [], []) =
     ((snd (update_delivered 42 shop), [UpdateCall 42 (Inr 0)]), [], []) \<and>
   process_order mysql row_0042 (snd (update_delivered 42 shop), [], []) =
     (snd (update_delivered 42 shop), [], [])"
proof -
  let ?d' = "snd (update_delivered 42 shop)"
  have first: "updateOrder mysql 42 shop = (Inr 1, ?d')" by code_simp
  have statuses: "map status (orders ?d') = [Delivered, Shipped, Shipped]" by code_simp
  have id: "order_id row_0042 = 42" by (simp add: row_0042_def)
  have gone: "\<forall>row \<in> set (orders ?d'). order_id row = order_id row_0042 \<longrightarrow> status row \<noteq> Shipped"
    by code_simp
  note inst = conditional_update_skip [where i = 42 and d = shop and n = 1 and d' = ?d'
      and c = mysql and ord = row_0042 and w = ?d' and m = 0 and w' = ?d' and t = "[]"
      and processed = "[]" and errs = "[]" and s = ?d']
  from inst [THEN conjunct1, THEN mp, OF first]
  have again: "updateOrder mysql 42 ?d' = (Inr 0, ?d')" by simp
  from inst [THEN conjunct2, THEN conjunct1] again id
  have skip: "process_order (traced mysql) row_0042 ((?d', []), [], []) =
     ((?d', [UpdateCall 42 (Inr 0)]), [], [])" by simp
  from inst [THEN conjunct2, THEN conjunct2, THEN mp, OF gone]
  have still: "process_order mysql row_0042 (?d', [], []) = (?d', [], [])" .
  show ?thesis
    by (rule conjI [OF first conjI [OF statuses conjI [OF again conjI [OF skip still]]]])
qed

text \<open>
  C4. Take a run in which the selection returns \<open>pre @ ord # post\<close>, the loop has
  reached \<open>ord\<close>, its update answers one affected row and the insertion of its log entry
  then throws. The loop body returns normally: it has made these two calls and no other
  (nothing undoes the update), \<open>ord\<close> is appended to \<^verbatim>\<open>processedOrders\<close> and \<^verbatim>\<open>errors\<close>
  is as before. The sweep returns a result, built by continuing with \<open>post\<close> from that
  state, in which \<open>ord\<close> is reported and counted.
\<close>

theorem audit_failure_suppressed:
  assumes sel: "selectOrders c w = (Inr (Some (pre @ ord # post)), w0)"
    and reach: "process_orders c pre (w0, [], []) = (w1, p1, e1)"
    and upd: "updateOrder c (order_id ord) w1 = (Inr 1, w2)"
    and ins: "insertLog c (order_id ord) (order_number ord) (customer_email ord) w2 = (Inl e, w3)"
  shows "process_order (traced c) ord ((w1, t), p1, e1) =
       ((w3, t @ [UpdateCall (order_id ord) (Inr 1),
                  InsertCall (order_id ord) (order_number ord) (customer_email ord) (Inl e)]),
        p1 @ [order_number ord], e1) \<and>
     (\<exists>r wf. checkAndMarkDeliveredOrders c w = (Inr r, wf) \<and>
        process_orders c post (w3, p1 @ [order_number ord], e1) =
          (wf, processedOrders r, errors r) \<and>
        order_number ord \<in> set (processedOrders r) \<and>
        processedCount r = length (processedOrders r))"
proof
  from upd ins have step: "process_order c ord (w1, p1, e1) = (w3, p1 @ [order_number ord], e1)"
    by (simp add: process_order_delivers)
  from upd ins show "process_order (traced c) ord ((w1, t), p1, e1) =
       ((w3, t @ [UpdateCall (order_id ord) (Inr 1),
                  InsertCall (order_id ord) (order_number ord) (customer_email ord) (Inl e)]),
        p1 @ [order_number ord], e1)"
    by (simp add: traced_process_order step order_calls_def)
  obtain wf pf ef where rest:
      "process_orders c post (w3, p1 @ [order_number ord], e1) = (wf, pf, ef)"
    by (cases "process_orders c post (w3, p1 @ [order_number ord], e1)") auto
  from process_orders_extends [OF rest] obtain ps where "pf = (p1 @ [order_number ord]) @ ps"
    by blast
  then have mem: "order_number ord \<in> set pf" by simp
  from reach step rest
  have "process_orders c (pre @ ord # post) (w0, [], []) = (wf, pf, ef)"
    by (simp add: process_orders_append)
  with sweep_selected [OF sel]
  have "checkAndMarkDeliveredOrders c w =
      (Inr \<lparr>processedCount = length pf, processedOrders = pf, errors = ef\<rparr>, wf)"
    by simp
  with rest mem show "\<exists>r wf. checkAndMarkDeliveredOrders c w = (Inr r, wf) \<and>
        process_orders c post (w3, p1 @ [order_number ord], e1) =
          (wf, processedOrders r, errors r) \<and>
        order_number ord \<in> set (processedOrders r) \<and>
        processedCount r = length (processedOrders r)"
    by simp
qed

theorem audit_failure_suppressed_witness:
  "selectOrders mysql shop = (Inr (Some ([] @ row_0007 # [row_0042])), shop) \<and>
   process_orders mysql [] (shop, [], []) = (shop, [], []) \<and>
   updateOrder mysql (order_id row_0007) shop = (Inr 1, snd (update_delivered 7 shop)) \<and>
   insertLog mysql (order_id row_0007) (order_number row_0007) (customer_email row_0007)
       (snd (update_delivered 7 shop)) =
     (Inl (ErrorInstance ''ER_NO_SUCH_TABLE''), snd (update_delivered 7 shop)) \<and>
   process_order (traced mysql) row_0007 ((shop, []), [], []) =
     ((snd (update_delivered 7 shop),
       [] @ [UpdateCall (order_id row_0007) (Inr 1),
             InsertCall (order_id row_0007) (order_number row_0007) (customer_email row_0007)
               (Inl (ErrorInstance ''ER_NO_SUCH_TABLE''))]),
      [] @ [order_number row_0007], []) \<and>
   fst (checkAndMarkDeliveredOrders mysql shop) =
     Inr \<lparr>processedCount = 2, processedOrders = [''ORD-0007'', ''ORD-0042''], errors = []\<rparr> \<and>
   map status (orders (snd (checkAndMarkDeliveredOrders mysql shop))) = [Delivered, Delivered, Shipped]"
proof -
  let ?d2 = "snd (update_delivered 7 shop)"
  have sel: "selectOrders mysql shop = (Inr (Some ([] @ row_0007 # [row_0042])), shop)"
    by code_simp
  have reach: "process_orders mysql [] (shop, [], []) = (shop, [], [])" by simp
  have upd: "updateOrder mysql (order_id row_0007) shop = (Inr 1, ?d2)" by code_simp
  have ins: "insertLog mysql (order_id row_0007) (order_number row_0007) (customer_email row_0007) ?d2 =
     (Inl (ErrorInstance ''ER_NO_SUCH_TABLE''), ?d2)" by code_simp
  note step = audit_failure_suppressed [OF sel reach upd ins, of "[]", THEN conjunct1]
  have res: "fst (checkAndMarkDeliveredOrders mysql shop) =
     Inr \<lparr>processedCount = 2, processedOrders = [''ORD-0007'', ''ORD-0042''], errors = []\<rparr>"
    by code_simp
  have statuses: "map status (orders (snd (checkAndMarkDeliveredOrders mysql shop))) =
      [Delivered, Delivered, Shipped]"
    by code_simp
  show ?thesis
    by (rule conjI [OF sel conjI [OF reach conjI [OF upd conjI [OF ins conjI [OF step
          conjI [OF res statuses]]]]]])
qed



text \<open>
  C8. When the selection returns no eligible order, as an empty result set or as no result
  set at all, the sweep returns exactly \<^verbatim>\<open>{ processedCount: 0, processedOrders: [], errors: [] }\<close>.
\<close>

theorem sweep_empty_selection:
  "selectOrders c w = (Inr None, w') \<or> selectOrders c w = (Inr (Some []), w') \<Longrightarrow>
   checkAndMarkDeliveredOrders c w =
     (Inr \<lparr>processedCount = 0, processedOrders = [], errors = []\<rparr>, w')"
  by (auto simp: checkAndMarkDeliveredOrders_def sweep_try_def)

theorem sweep_empty_selection_witness:
  "selectOrders mysql quiet_shop = (Inr (Some []), quiet_shop) \<and>
   checkAndMarkDeliveredOrders mysql quiet_shop =
     (Inr \<lparr>processedCount = 0, processedOrders = [], errors = []\<rparr>, quiet_shop)"
proof -
  have sel: "selectOrders mysql quiet_shop = (Inr (Some []), quiet_shop)"
    by (simp add: mysql_def select_eligible_def eligible_def quiet_shop_def seven_days_def)
  from sel sweep_empty_selection [of mysql quiet_shop quiet_shop] show ?thesis by simp
qed

text \<open>
  C9. The selection on the store returns its rows in ascending order of \<^verbatim>\<open>shipped_at\<close>.
  In a run of the sweep, whatever the collaborator, the calls after the selection handle
  the selected orders one at a time and in the order returned: the update of an order,
  then the insertion of its log entry if the update affected one row, then the next order.
\<close>

theorem oldest_first_one_at_a_time:
  "sorted (map shipped_at (select_eligible d)) \<and>
   selectOrders mysql d = (Inr (Some (select_eligible d)), d) \<and>
   (checkAndMarkDeliveredOrders (traced c) (w, []) = (res, (w', t)) \<longrightarrow>
    selectOrders c w = (Inr (Some os), w0) \<longrightarrow>
      (\<exists>calls. t = SelectCall (Inr (Some os)) # calls \<and> one_at_a_time os calls) \<and>
      update_ids t = map order_id os)"
proof (intro conjI impI)
  show "sorted (map shipped_at (select_eligible d))" by (rule sorted_select_eligible)
  show "selectOrders mysql d = (Inr (Some (select_eligible d)), d)" by (simp add: mysql_def)
next
  assume run: "checkAndMarkDeliveredOrders (traced c) (w, []) = (res, (w', t))"
    and sel: "selectOrders c w = (Inr (Some os), w0)"
  from traced_sweep_selected [OF sel, of "[]"] run
  have t: "t = SelectCall (Inr (Some os)) # loop_calls c os (w0, [], [])"
    by (simp split: prod.splits)
  then show "\<exists>calls. t = SelectCall (Inr (Some os)) # calls \<and> one_at_a_time os calls"
    by (simp add: one_at_a_time_loop_calls)
  from t show "update_ids t = map order_id os"
    by (simp add: update_ids_loop_calls)
qed

theorem oldest_first_one_at_a_time_witness:
  "selectOrders mysql shop = (Inr (Some (select_eligible shop)), shop) \<and>
   map shipped_at (select_eligible shop) = [Some (- 86400), Some 0] \<and>
   map order_id (select_eligible shop) = [7, 42] \<and>
   update_ids (snd (snd (checkAndMarkDeliveredOrders (traced mysql) (shop, [])))) = [7, 42]"
proof -
  let ?run = "checkAndMarkDeliveredOrders (traced mysql) (shop, [])"
  have run: "?run = (fst ?run, (fst (snd ?run), snd (snd ?run)))" by simp
  have sel: "selectOrders mysql shop = (Inr (Some (select_eligible shop)), shop)"
    by (simp add: mysql_def)
  have times: "map shipped_at (select_eligible shop) = [Some (- 86400), Some 0]" by code_simp
  have ids: "map order_id (select_eligible shop) = [7, 42]" by code_simp
  from oldest_first_one_at_a_time [where c = mysql and w = shop and d = shop,
      THEN conjunct2, THEN conjunct2, THEN mp, OF run, THEN mp, OF sel, THEN conjunct2]
  have "update_ids (snd (snd ?run)) = map order_id (select_eligible shop)" .
  with ids have calls: "update_ids (snd (snd ?run)) = [7, 42]" by simp
  show ?thesis
    by (rule conjI [OF sel conjI [OF times conjI [OF ids calls]]])
qed

text \<open>
  C10. In every result of the sweep, \<^verbatim>\<open>processedCount\<close> is the length of
  \<^verbatim>\<open>processedOrders\<close>, and every element of \<^verbatim>\<open>processedOrders\<close> is the order number of a
  selected order whose update, made for that order's id, answered exactly one affected
  row.
\<close>

theorem processed_count_consistent:
  assumes run: "checkAndMarkDeliveredOrders (traced c) (w, []) = (Inr r, (w', t))"
  shows "fst (checkAndMarkDeliveredOrders c w) = Inr r \<and>
     processedCount r = length (processedOrders r) \<and>
     (\<forall>num \<in> set (processedOrders r).
        \<exists>os w0 k. selectOrders c w = (Inr (Some os), w0) \<and> k < length os \<and>
          order_number (os ! k) = num \<and>
          update_ids t ! k = order_id (os ! k) \<and>
          update_replies t ! k = Inr 1)"
proof -
  from traced_sweep_same [of c w "[]"] run
  have plain: "fst (checkAndMarkDeliveredOrders c w) = Inr r" by simp
  have traced_run: "processedCount r = length (processedOrders r) \<and>
     (\<forall>num \<in> set (processedOrders r).
        \<exists>os w0 k. selectOrders c w = (Inr (Some os), w0) \<and> k < length os \<and>
          order_number (os ! k) = num \<and>
          update_ids t ! k = order_id (os ! k) \<and>
          update_replies t ! k = Inr 1)"
  proof (cases "selectOrders c w")
    case (Pair reply w0)
    show ?thesis
    proof (cases reply)
      case (Inl e)
      with Pair have "selectOrders (traced c) (w, []) = (Inl e, (w0, [SelectCall (Inl e)]))"
        by (simp add: traced_select)
      with run show ?thesis
        by (auto simp: checkAndMarkDeliveredOrders_def sweep_try_select_throws)
    next
      case (Inr sel)
      show ?thesis
      proof (cases sel)
        case None
        with Inr Pair have "selectOrders (traced c) (w, []) = (Inr None, (w0, [SelectCall (Inr None)]))"
          by (simp add: traced_select)
        with run show ?thesis
          by (auto simp: checkAndMarkDeliveredOrders_def sweep_try_def)
      next
        case (Some os)
        with Inr Pair have sel: "selectOrders c w = (Inr (Some os), w0)" by simp
        obtain wf p e where loop: "process_orders c os (w0, [], []) = (wf, p, e)"
          by (cases "process_orders c os (w0, [], [])") auto
        let ?calls = "loop_calls c os (w0, [], [])"
        from traced_sweep_selected [OF sel, of "[]"] run loop
        have r: "r = \<lparr>processedCount = length p, processedOrders = p, errors = e\<rparr>"
          and t: "t = SelectCall (Inr (Some os)) # ?calls"
          by simp_all
        from t have ids: "update_ids t = map order_id os"
          and reps: "update_replies t = update_replies ?calls"
          by (simp_all add: update_ids_loop_calls)
        from process_orders_by_replies [OF loop] reps
        have p: "p = reported os (update_replies t)" by simp
        have "\<exists>os w0 k. selectOrders c w = (Inr (Some os), w0) \<and> k < length os \<and>
            order_number (os ! k) = num \<and> update_ids t ! k = order_id (os ! k) \<and>
            update_replies t ! k = Inr 1" if "num \<in> set p" for num
        proof -
          from that p reported_source obtain k where k: "k < length os"
            "order_number (os ! k) = num" "update_replies t ! k = Inr 1" by blast
          with ids have "update_ids t ! k = order_id (os ! k)" by simp
          with sel k show ?thesis by blast
        qed
        with r show ?thesis by simp
      qed
    qed
  qed
  from plain traced_run show ?thesis by (rule conjI)
qed

theorem processed_count_consistent_witness:
  "checkAndMarkDeliveredOrders (traced mysql) (logged_shop, []) =
     (Inr \<lparr>processedCount = 2, processedOrders = [''ORD-0007'', ''ORD-0042''], errors = []\<rparr>,
      (fst (snd (checkAndMarkDeliveredOrders (traced mysql) (logged_shop, []))),
       snd (snd (checkAndMarkDeliveredOrders (traced mysql) (logged_shop, []))))) \<and>
   processedCount \<lparr>processedCount = 2, processedOrders = [''ORD-0007'', ''ORD-0042''], errors = []\<rparr>
     = length [''ORD-0007'', ''ORD-0042''] \<and>
   update_ids (snd (snd (checkAndMarkDeliveredOrders (traced mysql) (logged_shop, [])))) = [7, 42] \<and>
   update_replies (snd (snd (checkAndMarkDeliveredOrders (traced mysql) (logged_shop, [])))) =
     [Inr 1, Inr 1]"
proof -
  let ?run = "checkAndMarkDeliveredOrders (traced mysql) (logged_shop, [])"
  let ?r = "\<lparr>processedCount = 2, processedOrders = [''ORD-0007'', ''ORD-0042''], errors = []\<rparr>"
  have res: "fst ?run = Inr ?r" by code_simp
  then have run: "?run = (Inr ?r, (fst (snd ?run), snd (snd ?run)))"
    by (simp add: prod_eq_iff)
  have ids: "update_ids (snd (snd ?run)) = [7, 42]" by code_simp
  have replies: "update_replies (snd (snd ?run)) = [Inr 1, Inr 1]" by code_simp
  from processed_count_consistent [OF run]
  have count: "processedCount ?r = length [''ORD-0007'', ''ORD-0042'']" by simp
  show ?thesis
    by (rule conjI [OF run conjI [OF count conjI [OF ids replies]]])
qed

section \<open>Statistics and the health check\<close>

text \<open>
  C7. \<^verbatim>\<open>getStats\<close> does not throw and every result has \<^verbatim>\<open>errorCount\<close> 0. When the table
  check counts zero tables, and so on every store without the log table, the result is
  \<^verbatim>\<open>{ totalProcessed: 0, lastProcessed: null, errorCount: 0 }\<close>.
\<close>

theorem stats_never_throw:
  "(\<exists>r. fst (getStats c w) = Inr r \<and> errorCount r = 0) \<and>
   (tableCheck c w = (Inr (row # others), w') \<longrightarrow> cnt row = 0 \<longrightarrow>
      getStats c w = (Inr \<lparr>totalProcessed = 0, lastProcessed = None, errorCount = 0\<rparr>, w')) \<and>
   (auto_delivery_logs d = None \<longrightarrow>
      getStats mysql d = (Inr \<lparr>totalProcessed = 0, lastProcessed = None, errorCount = 0\<rparr>, d))"
proof (intro conjI impI)
  show "\<exists>r. fst (getStats c w) = Inr r \<and> errorCount r = 0"
    by (auto simp: getStats_def stats_try_def split: prod.splits sum.splits if_splits)
next
  assume "tableCheck c w = (Inr (row # others), w')" and "cnt row = 0"
  then show "getStats c w = (Inr \<lparr>totalProcessed = 0, lastProcessed = None, errorCount = 0\<rparr>, w')"
    by (simp add: getStats_def stats_try_def)
next
  assume "auto_delivery_logs d = None"
  then show "getStats mysql d = (Inr \<lparr>totalProcessed = 0, lastProcessed = None, errorCount = 0\<rparr>, d)"
    by (simp add: getStats_def stats_try_def mysql_def table_check_def)
qed

theorem stats_never_throw_witness:
  "tableCheck mysql shop = (Inr (\<lparr>cnt = 0\<rparr> # []), shop) \<and>
   cnt \<lparr>cnt = 0\<rparr> = 0 \<and>
   auto_delivery_logs shop = None \<and>
   getStats mysql shop = (Inr \<lparr>totalProcessed = 0, lastProcessed = None, errorCount = 0\<rparr>, shop)"
proof -
  have check: "tableCheck mysql shop = (Inr (\<lparr>cnt = 0\<rparr> # []), shop)"
    by (simp add: mysql_def table_check_def shop_def)
  have zero: "cnt \<lparr>cnt = 0\<rparr> = 0" by simp
  have absent: "auto_delivery_logs shop = None" by (simp add: shop_def)
  from stats_never_throw [where c = mysql and w = shop and d = shop,
      THEN conjunct2, THEN conjunct2, THEN mp, OF absent]
  have stats: "getStats mysql shop =
      (Inr \<lparr>totalProcessed = 0, lastProcessed = None, errorCount = 0\<rparr>, shop)" .
  show ?thesis
    by (rule conjI [OF check conjI [OF zero conjI [OF absent stats]]])
qed

text \<open>
  C6, as amended. When the probe resolves to true and the configuration is read, the
  handler answers 200 with \<^verbatim>\<open>success: true\<close>, \<^verbatim>\<open>mysqlConnected: true\<close> and the host and
  database name of the configuration, and nothing else. When the probe resolves to
  false it answers 500 with \<^verbatim>\<open>success: false\<close> and \<^verbatim>\<open>mysqlConnected: false\<close>, and no
  error message. When the probe throws, or reading the configuration throws whatever
  the probe resolved to, it answers 500 with \<^verbatim>\<open>success: false\<close>,
  \<^verbatim>\<open>mysqlConnected: false\<close> and an \<^verbatim>\<open>error\<close> member: the thrown value's message, or
  \<^verbatim>\<open>"Unknown error"\<close> when it has none.
\<close>

theorem health_check_responses:
  "GET (Inr True) (Inr cfg) =
     \<lparr>http_status = 200,
      body = [(''success'', JBool True), (''mysqlConnected'', JBool True),
              (''host'', JString (host cfg)), (''database'', JString (database cfg))]\<rparr> \<and>
   GET (Inr False) (Inr cfg) =
     \<lparr>http_status = 500,
      body = [(''success'', JBool False), (''mysqlConnected'', JBool False)]\<rparr> \<and>
   GET (Inl err) config =
     \<lparr>http_status = 500,
      body = [(''success'', JBool False), (''mysqlConnected'', JBool False),
              (''error'', JString (message_or_unknown err))]\<rparr> \<and>
   GET (Inr ok) (Inl err) =
     \<lparr>http_status = 500,
      body = [(''success'', JBool False), (''mysqlConnected'', JBool False),
              (''error'', JString (message_or_unknown err))]\<rparr> \<and>
   message_or_unknown (ErrorInstance m) = m \<and>
   message_or_unknown (NonError (Some m)) = m \<and>
   message_or_unknown (NonError None) = ''Unknown error''"
  by (simp add: GET_def GET_try_def)

text \<open>
  C6 as stated asks for an error message on any connection failure. A probe that
  resolves to false is answered with status 500 and a body of two members, neither of
  them an \<^verbatim>\<open>error\<close>.
\<close>

theorem failed_probe_has_no_error_message:
  "GET (Inr False) (Inr \<lparr>host = ''db.internal'', database = ''gkicks''\<rparr>) =
     \<lparr>http_status = 500,
      body = [(''success'', JBool False), (''mysqlConnected'', JBool False)]\<rparr> \<and>
   map_of (body (GET (Inr False) (Inr \<lparr>host = ''db.internal'', database = ''gkicks''\<rparr>))) ''error''
     = None"
  by (simp add: GET_def GET_try_def)

end
